theory Spec2Isabelle
  imports Main "HOL-Library.Multiset"
begin

section \<open>JavaScript numbers and values\<close>

text \<open>
  A JavaScript number is an IEEE double. Every number this module computes with is
  \<open>NaN\<close>, an infinity or a double whose value is an integer; fractions are not modelled.
  A double holds 53 significant bits: an integer of magnitude at most \<open>2^53\<close> is held as
  it is, a larger one is rounded to the nearest integer with 53 significant bits, the one
  with the even significand when two are equally near. Every arithmetic operation gives
  the exact result rounded this way.
\<close>

function bit_length :: "int \<Rightarrow> nat" where
  "bit_length n = (if n \<le> 0 then 0 else Suc (bit_length (n div 2)))"
  by pat_completeness auto
termination
  by (relation "measure nat") auto

declare bit_length.simps [simp del]

definition round53 :: "int \<Rightarrow> int" where
  "round53 x =
     (let m = \<bar>x\<bar> in
      if m \<le> 2 ^ 53 then x
      else
        let u = 2 ^ (bit_length m - 53); q = m div u; r = m mod u
        in sgn x * (if 2 * r < u \<or> (2 * r = u \<and> even q) then q * u else (q + 1) * u))"

subsection \<open>Time values\<close>

text \<open>
  The results of \<^verbatim>\<open>Date.parse\<close> and the time value of a \<^verbatim>\<open>Date\<close> are \<open>NaN\<close> or an
  integral number of milliseconds of magnitude at most \<open>8.64 * 10^15\<close>. The type \<open>jsnum\<close>
  holds these and their differences, which stay far from the largest double, so that no
  infinity arises. Every comparison with \<open>NaN\<close> is false, every arithmetic operation on
  \<open>NaN\<close> gives \<open>NaN\<close>.
\<close>

datatype jsnum = NaN | Num int

fun js_le :: "jsnum \<Rightarrow> jsnum \<Rightarrow> bool" where
  "js_le (Num a) (Num b) = (a \<le> b)"
| "js_le _ _ = False"

fun js_lt :: "jsnum \<Rightarrow> jsnum \<Rightarrow> bool" where
  "js_lt (Num a) (Num b) = (a < b)"
| "js_lt _ _ = False"

definition js_ge :: "jsnum \<Rightarrow> jsnum \<Rightarrow> bool" where
  "js_ge x y = js_le y x"

definition js_gt :: "jsnum \<Rightarrow> jsnum \<Rightarrow> bool" where
  "js_gt x y = js_lt y x"

fun js_sub :: "jsnum \<Rightarrow> jsnum \<Rightarrow> jsnum" where
  "js_sub (Num a) (Num b) = Num (round53 (a - b))"
| "js_sub _ _ = NaN"

text \<open>\<^verbatim>\<open>ToBoolean\<close> on a number: \<open>NaN\<close> and \<open>0\<close> are falsy.\<close>

fun num_truthy :: "jsnum \<Rightarrow> bool" where
  "num_truthy NaN = False"
| "num_truthy (Num n) = (n \<noteq> 0)"

subsection \<open>Numbers in general\<close>

text \<open>
  The numbers of \<^verbatim>\<open>parseInt\<close> and of the pagination helpers are not bound to the range
  of time values: a result beyond the largest double, \<open>(2^53 - 1) * 2^971\<close>, is an
  infinity, and the infinities follow the IEEE rules (\<open>\<infinity> - \<infinity>\<close> and \<open>\<infinity> * 0\<close> are \<open>NaN\<close>).
\<close>

datatype double = DNaN | DInt int | DInfinity | DNegInfinity

definition double_round :: "int \<Rightarrow> double" where
  "double_round x =
     (let y = round53 x in
      if 2 ^ 1024 \<le> y then DInfinity
      else if y \<le> - (2 ^ 1024) then DNegInfinity
      else DInt y)"

fun double_negate :: "double \<Rightarrow> double" where
  "double_negate DNaN = DNaN"
| "double_negate (DInt a) = DInt (- a)"
| "double_negate DInfinity = DNegInfinity"
| "double_negate DNegInfinity = DInfinity"

fun double_add :: "double \<Rightarrow> double \<Rightarrow> double" where
  "double_add DNaN y = DNaN"
| "double_add x DNaN = DNaN"
| "double_add (DInt a) (DInt b) = double_round (a + b)"
| "double_add DInfinity DNegInfinity = DNaN"
| "double_add DNegInfinity DInfinity = DNaN"
| "double_add DInfinity y = DInfinity"
| "double_add DNegInfinity y = DNegInfinity"
| "double_add (DInt a) y = y"

definition double_sub :: "double \<Rightarrow> double \<Rightarrow> double" where
  "double_sub x y = double_add x (double_negate y)"

fun double_sign :: "double \<Rightarrow> int" where
  "double_sign DNaN = 0"
| "double_sign (DInt a) = sgn a"
| "double_sign DInfinity = 1"
| "double_sign DNegInfinity = - 1"

fun double_mul :: "double \<Rightarrow> double \<Rightarrow> double" where
  "double_mul DNaN y = DNaN"
| "double_mul x DNaN = DNaN"
| "double_mul (DInt a) (DInt b) = double_round (a * b)"
| "double_mul x y =
     (let s = double_sign x * double_sign y in
      if s = 0 then DNaN else if 0 < s then DInfinity else DNegInfinity)"

text \<open>Strict equality \<^verbatim>\<open>===\<close> on numbers: \<open>NaN\<close> equals nothing, not even itself.\<close>

fun double_strict_eq :: "double \<Rightarrow> double \<Rightarrow> bool" where
  "double_strict_eq (DInt a) (DInt b) = (a = b)"
| "double_strict_eq DInfinity DInfinity = True"
| "double_strict_eq DNegInfinity DNegInfinity = True"
| "double_strict_eq _ _ = False"

fun double_truthy :: "double \<Rightarrow> bool" where
  "double_truthy DNaN = False"
| "double_truthy (DInt n) = (n \<noteq> 0)"
| "double_truthy DInfinity = True"
| "double_truthy DNegInfinity = True"

subsection \<open>Values\<close>

text \<open>
  The values a date field of a card, or an argument of the interval helpers, can hold:
  the JSON primitives, \<^verbatim>\<open>undefined\<close> for an absent field, and a \<^verbatim>\<open>Date\<close> object,
  given by its time value (\<open>NaN\<close> for an invalid date). Symbols and objects with a
  \<^verbatim>\<open>toString\<close> of their own are outside the model.
\<close>

datatype jsval =
    JUndefined
  | JNull
  | JBool bool
  | JNumber jsnum
  | JString string
  | JDate jsnum

fun truthy :: "jsval \<Rightarrow> bool" where
  "truthy JUndefined = False"
| "truthy JNull = False"
| "truthy (JBool b) = b"
| "truthy (JNumber x) = num_truthy x"
| "truthy (JString s) = (s \<noteq> [])"
| "truthy (JDate t) = True"

section \<open>Strings of digits\<close>

definition is_digit :: "char \<Rightarrow> bool" where
  "is_digit c = (let n = (of_char c :: nat) in 48 \<le> n \<and> n \<le> 57)"

definition digit_val :: "char \<Rightarrow> int" where
  "digit_val c = int (of_char c) - 48"

definition digits_val :: "string \<Rightarrow> int" where
  "digits_val ds = foldl (\<lambda>a c. 10 * a + digit_val c) 0 ds"

definition digit_char :: "int \<Rightarrow> char" where
  "digit_char d = ''0123456789'' ! nat (d mod 10)"

text \<open>The decimal numeral of a non-negative integer, without leading zeros.\<close>

function decimal :: "int \<Rightarrow> string" where
  "decimal n = (if n < 10 then [digit_char n] else decimal (n div 10) @ [digit_char (n mod 10)])"
  by pat_completeness auto
termination
  by (relation "measure nat") auto

declare decimal.simps [simp del]

text \<open>
  \<^verbatim>\<open>Number.prototype.toString\<close> on \<open>NaN\<close> and on an integer below \<open>10^21\<close> in magnitude
  (above it JavaScript switches to exponent notation, out of reach of a difference of
  time values).
\<close>

fun Number_toString :: "jsnum \<Rightarrow> string" where
  "Number_toString NaN = ''NaN''"
| "Number_toString (Num n) = (if n < 0 then CHR ''-'' # decimal (- n) else decimal n)"

section \<open>The environment: query string, clock and date parser\<close>

text \<open>
  What the module reads from its surroundings: the value of
  \<^verbatim>\<open>urlParams.get('servertime')\<close> (\<open>None\<close> for \<^verbatim>\<open>null\<close>, the parameter is missing),
  the module variable \<^verbatim>\<open>differential\<close> that \<^verbatim>\<open>incrementDifferential\<close> advances by
  1000 every second, the wall clock read by \<^verbatim>\<open>new Date()\<close>, and the part of
  \<^verbatim>\<open>Date.parse\<close> that ECMAScript leaves to the implementation: what it makes of a
  string that is not a year (\<open>parse_other\<close>), and what it reads back from the printed
  text of a \<^verbatim>\<open>Date\<close> that lies before 1970 or after the year 9998, given by the time
  value of that date (\<open>parse_printed_date\<close>).
\<close>

record env =
  servertime_param :: "string option"
  differential :: int
  wall_clock :: int
  parse_other :: "string \<Rightarrow> jsnum"
  parse_printed_date :: "int \<Rightarrow> jsnum"

definition incrementDifferential :: "'a env_scheme \<Rightarrow> 'a env_scheme" where
  "incrementDifferential e = e\<lparr>differential := differential e + 1000\<rparr>"

subsection \<open>Date.parse\<close>

text \<open>
  \<^verbatim>\<open>DayFromYear\<close> and \<^verbatim>\<open>TimeFromYear\<close> of ECMAScript: the time value of the first
  instant of a year, in UTC.
\<close>

definition DayFromYear :: "int \<Rightarrow> int" where
  "DayFromYear y =
     365 * (y - 1970) + (y - 1969) div 4 - (y - 1901) div 100 + (y - 1601) div 400"

definition TimeFromYear :: "int \<Rightarrow> int" where
  "TimeFromYear y = 86400000 * DayFromYear y"

text \<open>
  The date-only form \<^verbatim>\<open>YYYY\<close> of the ECMAScript date-time string format: exactly four
  decimal digits name a year, and the string denotes the start of that year in UTC.
\<close>

fun iso_year :: "string \<Rightarrow> int option" where
  "iso_year [a, b, c, d] =
     (if is_digit a \<and> is_digit b \<and> is_digit c \<and> is_digit d
      then Some (digits_val [a, b, c, d]) else None)"
| "iso_year _ = None"

text \<open>
  \<^verbatim>\<open>Date.parse\<close> on a string. The form \<^verbatim>\<open>YYYY\<close> is modelled as ECMAScript prescribes
  it, because \<^verbatim>\<open>getTransitions\<close> hands \<^verbatim>\<open>Date.parse\<close> a number, which reaches the
  parser as its decimal numeral. Every other string (the longer ISO forms and whatever
  else an engine accepts or rejects) is left to \<open>parse_other\<close>, about which nothing is
  assumed.
\<close>

definition parse_string :: "'a env_scheme \<Rightarrow> string \<Rightarrow> jsnum" where
  "parse_string e s =
     (case iso_year s of Some y \<Rightarrow> Num (TimeFromYear y) | None \<Rightarrow> parse_other e s)"

text \<open>
  \<^verbatim>\<open>Date.parse(v)\<close> applies \<^verbatim>\<open>ToString\<close> to its argument first. A \<^verbatim>\<open>Date\<close> object
  prints in local time, with a four-digit year and without its milliseconds, and the
  parser reads that text back: for a date from 1970 to the year 9998 the result is the
  time value cut to the second (the offset of local time being a whole number of
  minutes). Outside these years the printed year has fewer or more than four digits or a
  sign, and engines read it differently (a year below 100 as one of the twentieth or
  twenty-first century, a negative year not at all); that is left to
  \<open>parse_printed_date\<close>. An invalid date prints as \<^verbatim>\<open>Invalid Date\<close> and parses to
  \<open>NaN\<close>.
\<close>

fun Date_parse :: "'a env_scheme \<Rightarrow> jsval \<Rightarrow> jsnum" where
  "Date_parse e (JDate NaN) = NaN"
| "Date_parse e (JDate (Num t)) =
     (if 0 \<le> t \<and> t < TimeFromYear 9999 then Num (t div 1000 * 1000)
      else parse_printed_date e t)"
| "Date_parse e JUndefined = parse_string e ''undefined''"
| "Date_parse e JNull = parse_string e ''null''"
| "Date_parse e (JBool b) = parse_string e (if b then ''true'' else ''false'')"
| "Date_parse e (JNumber x) = parse_string e (Number_toString x)"
| "Date_parse e (JString s) = parse_string e s"

subsection \<open>parseInt\<close>

text \<open>
  \<^verbatim>\<open>parseInt(v, 10)\<close>: leading white space is skipped, one sign is read, and the longest
  run of decimal digits that follows is the value, rounded to a double; without a digit
  the result is \<open>NaN\<close>. \<^verbatim>\<open>null\<close> is read as the string \<^verbatim>\<open>"null"\<close>. Characters are 8-bit
  code units. (Beyond 20 significant digits ECMAScript lets an engine replace the later
  digits by zeros before rounding; the model rounds the exact value.)
\<close>

definition is_space :: "char \<Rightarrow> bool" where
  "is_space c = (of_char c \<in> {9, 10, 11, 12, 13, 32, 160 :: nat})"

definition parseInt_string :: "string \<Rightarrow> double" where
  "parseInt_string s =
     (let s1 = dropWhile is_space s;
          neg = (case s1 of c # _ \<Rightarrow> c = CHR ''-'' | [] \<Rightarrow> False);
          s2 = (case s1 of c # r \<Rightarrow> if c = CHR ''-'' \<or> c = CHR ''+'' then r else s1 | [] \<Rightarrow> s1);
          ds = takeWhile is_digit s2
      in if ds = [] then DNaN
         else double_round (if neg then - digits_val ds else digits_val ds))"

definition parseInt :: "string option \<Rightarrow> double" where
  "parseInt v = parseInt_string (case v of None \<Rightarrow> ''null'' | Some s \<Rightarrow> s)"

subsection \<open>Date objects\<close>

text \<open>
  \<^verbatim>\<open>new Date(x)\<close> for a number \<open>x\<close>: the time value is \<^verbatim>\<open>TimeClip(x)\<close>, so \<open>NaN\<close>, an
  infinity and a number beyond \<open>8.64 * 10^15\<close> in magnitude give an invalid date. A
  \<^verbatim>\<open>Date\<close> is modelled by its time value.
\<close>

definition TimeClip :: "double \<Rightarrow> jsnum" where
  "TimeClip x =
     (case x of
        DInt t \<Rightarrow> if \<bar>t\<bar> > 8640000000000000 then NaN else Num t
      | _ \<Rightarrow> NaN)"

definition new_Date :: "double \<Rightarrow> jsnum" where
  "new_Date x = TimeClip x"

section \<open>The helpers of general.js\<close>

definition getStartNumber :: "double \<Rightarrow> double \<Rightarrow> double" where
  "getStartNumber currentPageNumber showItemsPerPage =
     (if double_strict_eq currentPageNumber (DInt 1) then DInt 1
      else double_sub (double_mul currentPageNumber showItemsPerPage)
                      (double_sub showItemsPerPage (DInt 1)))"

definition isDateWithinInterval :: "'a env_scheme \<Rightarrow> jsval \<Rightarrow> jsval \<Rightarrow> jsval \<Rightarrow> bool" where
  "isDateWithinInterval e currentDate startDate endDate =
     (let curr = Date_parse e currentDate;
          start = Date_parse e startDate;
          end' = Date_parse e endDate
      in js_le start curr \<and> js_ge end' curr)"

definition isDateBeforeInterval :: "'a env_scheme \<Rightarrow> jsval \<Rightarrow> jsval \<Rightarrow> bool" where
  "isDateBeforeInterval e currentDate startDate =
     (let curr = Date_parse e currentDate;
          start = Date_parse e startDate
      in js_lt curr start)"

text \<open>The result is the time value of the \<^verbatim>\<open>Date\<close> that \<^verbatim>\<open>getCurrentDate\<close> returns.\<close>

definition getCurrentDate :: "'a env_scheme \<Rightarrow> jsnum" where
  "getCurrentDate e =
     (let servertime = parseInt (servertime_param e) in
      if double_truthy servertime
      then new_Date (double_add servertime (DInt (differential e)))
      else Num (wall_clock e))"

text \<open>
  The banner map is an object: a property that is absent reads as \<^verbatim>\<open>undefined\<close>,
  here \<open>None\<close>.
\<close>

definition getEventBanner ::
    "'a env_scheme \<Rightarrow> jsval \<Rightarrow> jsval \<Rightarrow> (string \<rightharpoonup> 'b) \<Rightarrow> 'b option" where
  "getEventBanner e startDate endDate bannerMap =
     (let currDate = JDate (getCurrentDate e) in
      if isDateWithinInterval e currDate startDate endDate then bannerMap ''live''
      else if isDateBeforeInterval e currDate startDate then bannerMap ''upcoming''
      else bannerMap ''onDemand'')"

section \<open>The transition queue\<close>

datatype js_error = Error string

record 'e qitem =
  priority :: int
  element :: 'e

text \<open>
  Modelled from the spec: the class \<^verbatim>\<open>MinPriorityQueue\<close> is imported from the package
  \<^verbatim>\<open>@datastructures-js/priority-queue\<close>, whose code is not under \<^verbatim>\<open>src/\<close>. By the
  spec the queue offers enqueue and pop-minimum only, pops in ascending priority and
  breaks ties by insertion order. The queue is the list of its entries in insertion
  order. The spec is silent on a priority that is not a number; the model takes the
  stricter reading, in which \<^verbatim>\<open>enqueue\<close> refuses it with an error, so that a caller
  has to be shown never to pass one.
\<close>

type_synonym 'e MinPriorityQueue = "'e qitem list"

definition enqueue :: "'e \<Rightarrow> jsnum \<Rightarrow> 'e MinPriorityQueue \<Rightarrow> js_error + 'e MinPriorityQueue" where
  "enqueue x p q =
     (case p of
        NaN \<Rightarrow> Inl (Error ''.enqueue expects a numeric priority'')
      | Num n \<Rightarrow> Inr (q @ [\<lparr>priority = n, element = x\<rparr>]))"

text \<open>
  Modelled from the spec: pop-minimum of the same package. The entry of least priority
  leaves the queue, the earliest enqueued one among equals; an empty queue gives
  nothing.
\<close>

fun dequeue :: "'e MinPriorityQueue \<Rightarrow> ('e qitem \<times> 'e MinPriorityQueue) option" where
  "dequeue [] = None"
| "dequeue (x # xs) =
     (case dequeue xs of
        None \<Rightarrow> Some (x, [])
      | Some (m, rest) \<Rightarrow>
          if priority x \<le> priority m then Some (x, xs) else Some (m, x # rest))"

lemma dequeue_length:
  "dequeue q = Some (m, rest) \<Longrightarrow> Suc (length rest) = length q"
proof (induction q arbitrary: m rest)
  case Nil
  then show ?case by simp
next
  case (Cons x xs)
  show ?case
  proof (cases "dequeue xs")
    case None
    then have "xs = []" by (cases xs) (auto split: option.splits if_splits)
    with Cons.prems None show ?thesis by simp
  next
    case (Some p)
    obtain m' rest' where p: "p = (m', rest')" by (cases p)
    from Cons.IH [of m' rest'] Some p have "Suc (length rest') = length xs" by simp
    with Cons.prems Some p show ?thesis by (auto split: if_splits)
  qed
qed

text \<open>Popping until the queue is empty: the entries in the order a consumer sees them.\<close>

function pop_all :: "'e MinPriorityQueue \<Rightarrow> 'e qitem list" where
  "pop_all q = (case dequeue q of None \<Rightarrow> [] | Some (m, rest) \<Rightarrow> m # pop_all rest)"
  by pat_completeness auto
termination
proof (relation "measure length")
  show "wf (measure length)" by simp
next
  fix q :: "'e MinPriorityQueue" and x2 :: "'e qitem \<times> 'e MinPriorityQueue" and m rest
  assume "dequeue q = Some x2" and "(m, rest) = x2"
  then have "dequeue q = Some (m, rest)" by simp
  from dequeue_length [OF this] show "(rest, q) \<in> measure length" by simp
qed

declare pop_all.simps [simp del]

text \<open>
  A card has a start and an end date, and whatever else the caller put into it; a field
  that is absent reads as \<^verbatim>\<open>undefined\<close>.
\<close>

record card =
  startDate :: jsval
  endDate :: jsval

text \<open>
  One round of the loop of \<^verbatim>\<open>getTransitions\<close>, for the card \<^verbatim>\<open>cards[i]\<close>. The start
  event carries the card, the end event carries \<^verbatim>\<open>null\<close> (\<open>None\<close>). An error thrown by
  \<^verbatim>\<open>enqueue\<close> would leave the function at once.
\<close>

definition transition_step ::
    "'a env_scheme \<Rightarrow> jsnum \<Rightarrow> 'c card_scheme \<Rightarrow> 'c card_scheme option MinPriorityQueue
      \<Rightarrow> js_error + 'c card_scheme option MinPriorityQueue" where
  "transition_step e currentDate c transitions =
     (let priority = js_sub (Date_parse e (startDate c)) currentDate in
      case (if num_truthy priority \<and> js_gt priority (Num 0)
            then enqueue (Some c) priority transitions else Inr transitions) of
        Inl err \<Rightarrow> Inl err
      | Inr transitions1 \<Rightarrow>
          (let endPriority =
                 Date_parse e (JNumber (js_sub (Date_parse e (endDate c)) currentDate))
           in if truthy (endDate c) \<and> js_gt endPriority (Num 0)
              then enqueue None endPriority transitions1 else Inr transitions1))"

fun transitions_loop ::
    "'a env_scheme \<Rightarrow> jsnum \<Rightarrow> 'c card_scheme list \<Rightarrow> 'c card_scheme option MinPriorityQueue
      \<Rightarrow> js_error + 'c card_scheme option MinPriorityQueue" where
  "transitions_loop e currentDate [] transitions = Inr transitions"
| "transitions_loop e currentDate (c # cards) transitions =
     (case transition_step e currentDate c transitions of
        Inl err \<Rightarrow> Inl err
      | Inr transitions1 \<Rightarrow> transitions_loop e currentDate cards transitions1)"

definition getTransitions ::
    "'a env_scheme \<Rightarrow> 'c card_scheme list \<Rightarrow> js_error + 'c card_scheme option MinPriorityQueue" where
  "getTransitions e cardsPtr =
     (let cards = cardsPtr;
          currentDate = getCurrentDate e;
          transitions = []
      in transitions_loop e currentDate cards transitions)"

section \<open>Notions used in the statements\<close>

text \<open>
  The events one card adds to the queue, written as the spec describes the algorithm: a
  start event when the time until the start is a positive number, an end event without
  item when the end date is present and the re-parsed difference is a positive number.
\<close>

definition start_events ::
    "'a env_scheme \<Rightarrow> jsnum \<Rightarrow> 'c card_scheme \<Rightarrow> 'c card_scheme option qitem list" where
  "start_events e currentDate c =
     (case js_sub (Date_parse e (startDate c)) currentDate of
        NaN \<Rightarrow> []
      | Num p \<Rightarrow> if 0 < p then [\<lparr>priority = p, element = Some c\<rparr>] else [])"

definition end_events ::
    "'a env_scheme \<Rightarrow> jsnum \<Rightarrow> 'c card_scheme \<Rightarrow> 'c card_scheme option qitem list" where
  "end_events e currentDate c =
     (case Date_parse e (JNumber (js_sub (Date_parse e (endDate c)) currentDate)) of
        NaN \<Rightarrow> []
      | Num p \<Rightarrow> if truthy (endDate c) \<and> 0 < p then [\<lparr>priority = p, element = None\<rparr>] else [])"

definition card_events ::
    "'a env_scheme \<Rightarrow> jsnum \<Rightarrow> 'c card_scheme \<Rightarrow> 'c card_scheme option qitem list" where
  "card_events e currentDate c = start_events e currentDate c @ end_events e currentDate c"

text \<open>
  The branch-free formula for the first item number of a page, to be compared with
  \<open>getStartNumber\<close>.
\<close>

definition startNumber_formula :: "double \<Rightarrow> double \<Rightarrow> double" where
  "startNumber_formula currentPageNumber showItemsPerPage =
     double_sub (double_mul currentPageNumber showItemsPerPage)
                (double_sub showItemsPerPage (DInt 1))"

subsection \<open>A concrete environment\<close>

text \<open>
  A page opened with \<^verbatim>\<open>?servertime=1000\<close>, before the first tick of the differential,
  in an engine whose date parser knows, besides the year-only form and the printed
  dates from 1970 to the year 9998, the ISO strings of the instants 2000 and 5000 and
  rejects everything else.
\<close>

definition example_parse_other :: "string \<Rightarrow> jsnum" where
  "example_parse_other s =
     (if s = ''1970-01-01T00:00:02.000Z'' then Num 2000
      else if s = ''1970-01-01T00:00:05.000Z'' then Num 5000
      else NaN)"

definition example_env :: env where
  "example_env =
     \<lparr>servertime_param = Some ''1000'', differential = 0, wall_clock = 1700000000123,
      parse_other = example_parse_other, parse_printed_date = (\<lambda>t. NaN)\<rparr>"

text \<open>A card that starts at the instant 2000 and ends at the instant 5000.\<close>

definition example_card :: card where
  "example_card =
     \<lparr>startDate = JString ''1970-01-01T00:00:02.000Z'',
      endDate = JString ''1970-01-01T00:00:05.000Z''\<rparr>"

text \<open>A card whose dates are the numbers 2000 and 5000 themselves.\<close>

definition numeric_card :: card where
  "numeric_card = \<lparr>startDate = JNumber (Num 2000), endDate = JNumber (Num 5000)\<rparr>"

text \<open>A card with a start date that no parser reads and no end date at all.\<close>

definition undated_card :: card where
  "undated_card = \<lparr>startDate = JString ''tomorrow'', endDate = JUndefined\<rparr>"


definition example_banners :: "string \<rightharpoonup> string" where
  "example_banners =
     map_of [(''live'', ''Live now''), (''upcoming'', ''Coming soon''),
             (''onDemand'', ''On demand'')]"

section \<open>Rounding\<close>

lemma round53_small: "\<bar>x\<bar> \<le> 9007199254740992 \<Longrightarrow> round53 x = x"
  by (simp add: round53_def)

lemma bit_length_lower: "0 < m \<Longrightarrow> 2 ^ (bit_length m - 1) \<le> m"
proof (induction m rule: bit_length.induct)
  case (1 n)
  show ?case
  proof (cases "n div 2 \<le> 0")
    case True
    with "1.prems" have "n = 1" by linarith
    then show ?thesis by (simp add: bit_length.simps [of 1] bit_length.simps [of 0])
  next
    case False
    then have pos: "0 < n div 2" by simp
    with "1.IH" "1.prems" have IH: "2 ^ (bit_length (n div 2) - 1) \<le> n div 2" by simp
    from pos have "bit_length (n div 2) = Suc (bit_length (n div 2) - 1)"
      by (simp add: bit_length.simps [of "n div 2"])
    then have "(2::int) ^ bit_length (n div 2) = 2 * 2 ^ (bit_length (n div 2) - 1)"
      by (metis power_Suc)
    also have "\<dots> \<le> 2 * (n div 2)" using IH by simp
    also have "\<dots> \<le> n" by simp
    finally have "(2::int) ^ bit_length (n div 2) \<le> n" .
    moreover from "1.prems" have "bit_length n = Suc (bit_length (n div 2))"
      by (simp add: bit_length.simps [of n])
    ultimately show ?thesis by simp
  qed
qed

lemma bit_length_upper: "0 \<le> m \<Longrightarrow> m < 2 ^ bit_length m"
proof (induction m rule: bit_length.induct)
  case (1 n)
  show ?case
  proof (cases "n \<le> 0")
    case True
    with "1.prems" show ?thesis by (simp add: bit_length.simps [of n])
  next
    case False
    with "1.IH" have "n div 2 < 2 ^ bit_length (n div 2)" by simp
    then have "n < 2 * 2 ^ bit_length (n div 2)" by linarith
    with False show ?thesis by (simp add: bit_length.simps [of n])
  qed
qed

text \<open>Rounding never brings a number beyond \<open>2^53\<close> back below it.\<close>

lemma round53_large:
  assumes "9007199254740992 < \<bar>x\<bar>"
  shows "9007199254740992 \<le> \<bar>round53 x\<bar>"
proof -
  define m where "m = \<bar>x\<bar>"
  define k where "k = bit_length m"
  define u :: int where "u = 2 ^ (k - 53)"
  define q where "q = m div u"
  from assms have m: "2 ^ 53 < m" by (simp add: m_def)
  then have mpos: "0 < m" by simp
  have "m < 2 ^ k" unfolding k_def using mpos by (intro bit_length_upper) simp
  with m have mk: "(2::int) ^ 53 < 2 ^ k" by linarith
  have k: "53 < k"
  proof (rule ccontr)
    assume "\<not> 53 < k"
    then have "k \<le> 53" by simp
    then have "(2::int) ^ k \<le> 2 ^ 53" by (intro power_increasing) simp_all
    with mk show False by linarith
  qed
  have upos: "0 < u" by (simp add: u_def)
  from k have "k - 1 = 52 + (k - 53)" by simp
  then have "(2::int) ^ (k - 1) = 2 ^ 52 * 2 ^ (k - 53)"
    by (simp only: power_add)
  then have low: "2 ^ 52 * u \<le> m"
    using bit_length_lower [OF mpos] by (simp add: k_def u_def)
  have "2 ^ 52 \<le> q"
  proof -
    from low upos have "(2 ^ 52 * u) div u \<le> m div u" by (intro zdiv_mono1) simp_all
    with upos show ?thesis by (simp add: q_def)
  qed
  moreover from k have "2 \<le> u"
  proof -
    from k have "1 \<le> k - 53" by simp
    then have "(2::int) ^ 1 \<le> 2 ^ (k - 53)" by (intro power_increasing) simp_all
    then show ?thesis by (simp add: u_def)
  qed
  ultimately have qu: "2 ^ 53 \<le> q * u"
  proof -
    assume a: "2 ^ 52 \<le> q" and b: "2 \<le> u"
    have "(2::int) ^ 53 = 2 ^ 52 * 2" by simp
    also have "\<dots> \<le> q * u" using a b by (intro mult_mono) simp_all
    finally show ?thesis .
  qed
  then have qu1: "2 ^ 53 \<le> (q + 1) * u"
    using upos by (simp add: algebra_simps)
  from assms have "x \<noteq> 0" by auto
  then have sg: "\<bar>sgn x * y\<bar> = \<bar>y\<bar>" for y :: int
    by (simp add: abs_mult)
  have "round53 x = sgn x * (if 2 * (m mod u) < u \<or> (2 * (m mod u) = u \<and> even q)
      then q * u else (q + 1) * u)"
    using m by (simp add: round53_def Let_def m_def [symmetric] k_def [symmetric]
        u_def [symmetric] q_def [symmetric])
  then have "\<bar>round53 x\<bar> = \<bar>if 2 * (m mod u) < u \<or> (2 * (m mod u) = u \<and> even q)
      then q * u else (q + 1) * u\<bar>"
    by (simp only: sg)
  with qu qu1 show ?thesis by (auto split: if_splits)
qed

lemma double_round_small:
  assumes "\<bar>x\<bar> \<le> 9007199254740992"
  shows "double_round x = DInt x"
proof -
  have lt: "(2::int) ^ 53 < 2 ^ 1024" by (intro power_strict_increasing) simp_all
  have "(2::int) ^ 53 = 9007199254740992" by simp
  with assms have "\<bar>x\<bar> \<le> 2 ^ 53" by (simp only:)
  with lt have a: "\<not> 2 ^ 1024 \<le> x" and b: "\<not> x \<le> - (2 ^ 1024)" by linarith+
  show ?thesis
    unfolding double_round_def Let_def round53_small [OF assms]
    using a b by (simp only: if_False)
qed

lemma TimeClip_double_round_large:
  assumes "8640000000000000 < \<bar>x\<bar>"
  shows "TimeClip (double_round x) = NaN"
proof (cases "\<bar>x\<bar> \<le> 9007199254740992")
  case True
  with assms show ?thesis by (simp add: double_round_small TimeClip_def)
next
  case False
  then have "9007199254740992 \<le> \<bar>round53 x\<bar>" by (intro round53_large) simp
  then show ?thesis by (simp add: double_round_def TimeClip_def Let_def)
qed

section \<open>The queue pops in ascending order\<close>

lemma dequeue_None: "dequeue q = None \<longleftrightarrow> q = []"
  by (cases q) (auto split: option.splits)

lemma dequeue_mset:
  "dequeue q = Some (m, rest) \<Longrightarrow> mset q = add_mset m (mset rest)"
proof (induction q arbitrary: m rest)
  case Nil
  then show ?case by simp
next
  case (Cons x xs)
  show ?case
  proof (cases "dequeue xs")
    case None
    with Cons.prems show ?thesis by (simp add: dequeue_None)
  next
    case (Some p)
    obtain m' rest' where p: "p = (m', rest')" by (cases p)
    from Cons.IH [of m' rest'] Some p have "mset xs = add_mset m' (mset rest')" by simp
    with Cons.prems Some p show ?thesis by (auto split: if_splits)
  qed
qed

lemma dequeue_least:
  "dequeue q = Some (m, rest) \<Longrightarrow> y \<in> set q \<Longrightarrow> priority m \<le> priority y"
proof (induction q arbitrary: m rest y)
  case Nil
  then show ?case by simp
next
  case (Cons x xs)
  show ?case
  proof (cases "dequeue xs")
    case None
    with Cons.prems show ?thesis by (simp add: dequeue_None)
  next
    case (Some p)
    obtain m' rest' where p: "p = (m', rest')" by (cases p)
    have IH: "\<And>z. z \<in> set xs \<Longrightarrow> priority m' \<le> priority z"
      using Cons.IH [of m' rest'] Some p by simp
    show ?thesis
    proof (cases "priority x \<le> priority m'")
      case True
      with Cons.prems Some p have "m = x" by simp
      with True IH Cons.prems(2) show ?thesis by fastforce
    next
      case False
      with Cons.prems Some p have "m = m'" by simp
      with False IH Cons.prems(2) show ?thesis by fastforce
    qed
  qed
qed

lemma pop_all_mset: "mset (pop_all q) = mset q"
proof (induction q rule: pop_all.induct)
  case (1 q)
  show ?case
  proof (cases "dequeue q")
    case None
    then have "pop_all q = []" by (subst pop_all.simps) simp
    moreover from None have "q = []" by (simp add: dequeue_None)
    ultimately show ?thesis by simp
  next
    case (Some p)
    obtain m rest where p: "p = (m, rest)" by (cases p)
    from "1.IH" [OF Some p [symmetric]] have "mset (pop_all rest) = mset rest" .
    with Some p dequeue_mset [of q m rest] show ?thesis
      by (simp add: pop_all.simps [of q])
  qed
qed

lemma pop_all_sorted: "sorted (map priority (pop_all q))"
proof (induction q rule: pop_all.induct)
  case (1 q)
  show ?case
  proof (cases "dequeue q")
    case None
    then show ?thesis by (simp add: pop_all.simps [of q])
  next
    case (Some p)
    obtain m rest where p: "p = (m, rest)" by (cases p)
    from "1.IH" [OF Some p [symmetric]] have IH: "sorted (map priority (pop_all rest))" .
    have deq: "dequeue q = Some (m, rest)" using Some p by simp
    have "priority m \<le> priority y" if "y \<in> set (pop_all rest)" for y
    proof -
      from that have "y \<in># mset (pop_all rest)" by simp
      then have "y \<in># mset rest" by (simp only: pop_all_mset)
      then have "y \<in># mset q" using dequeue_mset [OF deq] by simp
      then have "y \<in> set q" by simp
      with dequeue_least [OF deq] show ?thesis by blast
    qed
    with IH deq show ?thesis
      by (auto simp: pop_all.simps [of q])
  qed
qed

section \<open>What getTransitions puts into the queue\<close>

lemma enqueue_Num: "enqueue x (Num n) q = Inr (q @ [\<lparr>priority = n, element = x\<rparr>])"
  by (simp add: enqueue_def)

lemma start_branch:
  "(let priority = js_sub (Date_parse e (startDate c)) currentDate in
     if num_truthy priority \<and> js_gt priority (Num 0)
     then enqueue (Some c) priority q else Inr q) = Inr (q @ start_events e currentDate c)"
  by (cases "js_sub (Date_parse e (startDate c)) currentDate")
     (simp_all add: start_events_def js_gt_def enqueue_Num)

lemma end_branch:
  "(let endPriority = Date_parse e (JNumber (js_sub (Date_parse e (endDate c)) currentDate)) in
     if truthy (endDate c) \<and> js_gt endPriority (Num 0)
     then enqueue None endPriority q else Inr q) = Inr (q @ end_events e currentDate c)"
  by (cases "Date_parse e (JNumber (js_sub (Date_parse e (endDate c)) currentDate))")
     (simp_all add: end_events_def js_gt_def enqueue_Num)

lemma transition_step_events:
  "transition_step e currentDate c q = Inr (q @ card_events e currentDate c)"
proof -
  have "transition_step e currentDate c q =
      (case (let priority = js_sub (Date_parse e (startDate c)) currentDate in
             if num_truthy priority \<and> js_gt priority (Num 0)
             then enqueue (Some c) priority q else Inr q) of
         Inl err \<Rightarrow> Inl err
       | Inr q1 \<Rightarrow>
          (let endPriority =
                 Date_parse e (JNumber (js_sub (Date_parse e (endDate c)) currentDate)) in
           if truthy (endDate c) \<and> js_gt endPriority (Num 0)
           then enqueue None endPriority q1 else Inr q1))"
    by (simp add: transition_step_def Let_def)
  also have "\<dots> = Inr ((q @ start_events e currentDate c) @ end_events e currentDate c)"
    by (simp only: start_branch end_branch sum.case)
  finally show ?thesis by (simp add: card_events_def)
qed

lemma transitions_loop_events:
  "transitions_loop e currentDate cards q =
     Inr (q @ concat (map (card_events e currentDate) cards))"
  by (induction cards arbitrary: q) (simp_all add: transition_step_events)

lemma getTransitions_events:
  "getTransitions e cards = Inr (concat (map (card_events e (getCurrentDate e)) cards))"
  by (simp add: getTransitions_def transitions_loop_events)

lemma card_events_positive:
  "ev \<in> set (card_events e currentDate c) \<Longrightarrow> 0 < priority ev"
  by (auto simp: card_events_def start_events_def end_events_def split: jsnum.splits if_splits)

lemma filter_null_card_events:
  "filter (\<lambda>ev. element ev = None) (concat (map (card_events e now) cs)) =
   concat (map (end_events e now) cs)"
  by (induction cs)
     (auto simp: card_events_def start_events_def end_events_def split: jsnum.splits)

text \<open>
  C1, as the code has it. With the current time 1000 and a single card that starts at the
  instant 2000 and ends at the instant 5000, the queue holds two events, not one: the
  start event with priority 1000, and an end event, because the difference 4000 reaches
  \<^verbatim>\<open>Date.parse\<close> as the string \<^verbatim>\<open>"4000"\<close>, which is the year 4000. When the dates are
  the numbers 2000 and 5000 themselves, \<^verbatim>\<open>Date.parse\<close> reads the start as the year
  2000, and the only event has priority 946684799000.
\<close>

theorem getTransitions_example_counterexample:
  "getTransitions example_env [example_card] =
     Inr [\<lparr>priority = 1000, element = Some example_card\<rparr>,
          \<lparr>priority = 64060588800000, element = None\<rparr>]
   \<and> getTransitions example_env [numeric_card] =
     Inr [\<lparr>priority = 946684799000, element = Some numeric_card\<rparr>]"
  by code_simp

text \<open>
  C1, amended. When the current time is 1000 and the single card has a start date that
  parses to 2000 and an end date that parses to 5000, the start-date branch enqueues
  exactly one event: the card itself, with priority 1000. Nothing is said about the
  end-date branch.
\<close>

theorem getTransitions_example_start:
  assumes "getCurrentDate e = Num 1000"
    and "Date_parse e (startDate c) = Num 2000"
    and "Date_parse e (endDate c) = Num 5000"
  shows "\<exists>q. getTransitions e [c] = Inr q \<and>
             filter (\<lambda>ev. element ev \<noteq> None) q = [\<lparr>priority = 1000, element = Some c\<rparr>]"
  using assms
  by (simp add: getTransitions_events card_events_def start_events_def end_events_def
      round53_small split: jsnum.splits)

theorem getTransitions_example_start_witness:
  "getCurrentDate example_env = Num 1000
   \<and> Date_parse example_env (startDate example_card) = Num 2000
   \<and> Date_parse example_env (endDate example_card) = Num 5000
   \<and> (\<exists>q. getTransitions example_env [example_card] = Inr q \<and>
          filter (\<lambda>ev. element ev \<noteq> None) q =
            [\<lparr>priority = 1000, element = Some example_card\<rparr>])"
proof -
  have now: "getCurrentDate example_env = Num 1000" by code_simp
  have s: "Date_parse example_env (startDate example_card) = Num 2000" by code_simp
  have e: "Date_parse example_env (endDate example_card) = Num 5000" by code_simp
  from getTransitions_example_start [OF now s e] now s e show ?thesis by blast
qed

text \<open>
  C2. For every list of cards and every current time, \<open>getTransitions\<close> returns a queue
  (no \<^verbatim>\<open>enqueue\<close> is handed \<open>NaN\<close>), and every event in it, from the start-date branch
  or the end-date branch, has a priority above zero.
\<close>

theorem getTransitions_priorities_positive:
  "\<exists>q. getTransitions e cards = Inr q \<and> (\<forall>ev \<in> set q. 0 < priority ev)"
  by (auto simp: getTransitions_events dest: card_events_positive)

theorem getTransitions_priorities_positive_witness:
  "\<exists>q. getTransitions example_env [example_card, numeric_card] = Inr q \<and> length q = 3 \<and>
       list_all (\<lambda>ev. 0 < priority ev) q"
proof -
  from getTransitions_priorities_positive [of example_env "[example_card, numeric_card]"]
  obtain q where q: "getTransitions example_env [example_card, numeric_card] = Inr q"
    and pos: "\<forall>ev \<in> set q. 0 < priority ev" by blast
  have "getTransitions example_env [example_card, numeric_card] =
     Inr [\<lparr>priority = 1000, element = Some example_card\<rparr>,
          \<lparr>priority = 64060588800000, element = None\<rparr>,
          \<lparr>priority = 946684799000, element = Some numeric_card\<rparr>]"
    by code_simp
  with q have "length q = 3" by auto
  with q pos show ?thesis by (auto simp: list_all_iff)
qed

text \<open>
  C3. The events without item in the queue of \<open>getTransitions\<close> are exactly the end
  events: card by card, in order, one event with a \<^verbatim>\<open>null\<close> item when the end date of
  the card is truthy and the double parse
  \<^verbatim>\<open>Date.parse(Date.parse(endDate) - currentDate)\<close> is a number above zero, which is
  then the priority, and none otherwise.
\<close>

theorem getTransitions_end_events:
  "\<exists>q. getTransitions e cards = Inr q \<and>
       filter (\<lambda>ev. element ev = None) q =
         concat (map (\<lambda>c.
           case Date_parse e (JNumber (js_sub (Date_parse e (endDate c)) (getCurrentDate e))) of
             NaN \<Rightarrow> []
           | Num p \<Rightarrow> if truthy (endDate c) \<and> 0 < p
                       then [\<lparr>priority = p, element = None\<rparr>] else []) cards)"
  by (simp add: getTransitions_events filter_null_card_events end_events_def [abs_def])

theorem getTransitions_end_events_witness:
  "\<exists>q. getTransitions example_env [example_card, undated_card] = Inr q \<and>
       filter (\<lambda>ev. element ev = None) q = [\<lparr>priority = 64060588800000, element = None\<rparr>]"
proof -
  from getTransitions_end_events [of example_env "[example_card, undated_card]"]
  obtain q where q: "getTransitions example_env [example_card, undated_card] = Inr q"
    and nulls: "filter (\<lambda>ev. element ev = None) q =
      concat (map (\<lambda>c.
        case Date_parse example_env
               (JNumber (js_sub (Date_parse example_env (endDate c))
                  (getCurrentDate example_env))) of
          NaN \<Rightarrow> []
        | Num p \<Rightarrow> if truthy (endDate c) \<and> 0 < p
                    then [\<lparr>priority = p, element = None\<rparr>] else [])
        [example_card, undated_card])" by blast
  have "concat (map (\<lambda>c.
        case Date_parse example_env
               (JNumber (js_sub (Date_parse example_env (endDate c))
                  (getCurrentDate example_env))) of
          NaN \<Rightarrow> []
        | Num p \<Rightarrow> if truthy (endDate c) \<and> 0 < p
                    then [\<lparr>priority = p, element = None\<rparr>] else [])
        [example_card, undated_card]) =
      [\<lparr>priority = 64060588800000, element = None :: card option\<rparr>]"
    by code_simp
  with q nulls show ?thesis by simp
qed

text \<open>
  C7. Popping the queue of \<open>getTransitions\<close> until it is empty gives every enqueued
  event once, and the priorities come out in non-decreasing order.
\<close>

theorem getTransitions_pop_order:
  "\<exists>q. getTransitions e cards = Inr q \<and>
       sorted (map priority (pop_all q)) \<and> mset (pop_all q) = mset q"
  by (simp add: getTransitions_events pop_all_sorted pop_all_mset)

theorem getTransitions_pop_order_witness:
  "\<exists>q. getTransitions example_env [example_card, numeric_card] = Inr q \<and>
       map priority q = [1000, 64060588800000, 946684799000] \<and>
       map priority (pop_all q) = [1000, 946684799000, 64060588800000] \<and>
       sorted (map priority (pop_all q))"
proof -
  from getTransitions_pop_order [of example_env "[example_card, numeric_card]"]
  obtain q where q: "getTransitions example_env [example_card, numeric_card] = Inr q"
    and sorted: "sorted (map priority (pop_all q))" by blast
  have "getTransitions example_env [example_card, numeric_card] =
     Inr [\<lparr>priority = 1000, element = Some example_card\<rparr>,
          \<lparr>priority = 64060588800000, element = None\<rparr>,
          \<lparr>priority = 946684799000, element = Some numeric_card\<rparr>]"
    by code_simp
  with q have q_eq: "q = [\<lparr>priority = 1000, element = Some example_card\<rparr>,
          \<lparr>priority = 64060588800000, element = None\<rparr>,
          \<lparr>priority = 946684799000, element = Some numeric_card\<rparr>]" by simp
  have "map priority (pop_all [\<lparr>priority = 1000, element = Some example_card\<rparr>,
          \<lparr>priority = 64060588800000, element = None\<rparr>,
          \<lparr>priority = 946684799000, element = Some numeric_card\<rparr>]) =
        [1000, 946684799000, 64060588800000]"
    by code_simp
  with q q_eq sorted show ?thesis by simp
qed

section \<open>No operation of the core raises\<close>

lemma isDateWithinInterval_Num:
  "isDateWithinInterval e t s en =
     (\<exists>c a b. Date_parse e t = Num c \<and> Date_parse e s = Num a \<and> Date_parse e en = Num b \<and>
        a \<le> c \<and> c \<le> b)"
  by (cases "Date_parse e t"; cases "Date_parse e s"; cases "Date_parse e en")
     (simp_all add: isDateWithinInterval_def js_ge_def)

lemma isDateBeforeInterval_Num:
  "isDateBeforeInterval e t s =
     (\<exists>c a. Date_parse e t = Num c \<and> Date_parse e s = Num a \<and> c < a)"
  by (cases "Date_parse e t"; cases "Date_parse e s")
     (simp_all add: isDateBeforeInterval_def)

lemma getEventBanner_unfold:
  "getEventBanner e s en m =
     (if isDateWithinInterval e (JDate (getCurrentDate e)) s en then m ''live''
      else if isDateBeforeInterval e (JDate (getCurrentDate e)) s then m ''upcoming''
      else m ''onDemand'')"
  by (simp add: getEventBanner_def Let_def)





section \<open>The interval classifier\<close>

text \<open>
  C4. \<open>isDateWithinInterval\<close> is true exactly when all three dates parse to numbers and
  the parsed start is at most the parsed current date, which is at most the parsed end.
  Equality at the start or at the end gives true; a date that does not parse gives
  false.
\<close>

theorem isDateWithinInterval_iff:
  "isDateWithinInterval e t s en =
     (\<exists>c a b. Date_parse e t = Num c \<and> Date_parse e s = Num a \<and> Date_parse e en = Num b \<and>
        a \<le> c \<and> c \<le> b)
   \<and> (Date_parse e t = Num c \<and> Date_parse e s = Num c \<and> Date_parse e en = Num b \<and> c \<le> b
        \<longrightarrow> isDateWithinInterval e t s en)
   \<and> (Date_parse e t = Num c \<and> Date_parse e s = Num a \<and> Date_parse e en = Num c \<and> a \<le> c
        \<longrightarrow> isDateWithinInterval e t s en)
   \<and> (Date_parse e t = NaN \<or> Date_parse e s = NaN \<or> Date_parse e en = NaN
        \<longrightarrow> \<not> isDateWithinInterval e t s en)"
  by (auto simp: isDateWithinInterval_Num)

theorem isDateWithinInterval_iff_witness:
  "isDateWithinInterval example_env (JDate (Num 2000)) (startDate example_card)
     (endDate example_card)
   \<and> isDateWithinInterval example_env (JDate (Num 5000)) (startDate example_card)
       (endDate example_card)
   \<and> \<not> isDateWithinInterval example_env (JDate (Num 6000)) (startDate example_card)
         (endDate example_card)
   \<and> \<not> isDateWithinInterval example_env (JDate (Num 3000)) (JString ''tomorrow'')
         (endDate example_card)"
proof -
  have s: "Date_parse example_env (startDate example_card) = Num 2000" by code_simp
  have e: "Date_parse example_env (endDate example_card) = Num 5000" by code_simp
  have t2: "Date_parse example_env (JDate (Num 2000)) = Num 2000" by code_simp
  have t5: "Date_parse example_env (JDate (Num 5000)) = Num 5000" by code_simp
  have t6: "Date_parse example_env (JDate (Num 6000)) = Num 6000" by code_simp
  have bad: "Date_parse example_env (JString ''tomorrow'') = NaN" by code_simp
  note W = isDateWithinInterval_iff
  from W [of example_env "JDate (Num 2000)" "startDate example_card"
      "endDate example_card" 2000 5000 2000] s e t2
  have 1: "isDateWithinInterval example_env (JDate (Num 2000)) (startDate example_card)
      (endDate example_card)" by simp
  from W [of example_env "JDate (Num 5000)" "startDate example_card"
      "endDate example_card" 5000 5000 2000] s e t5
  have 2: "isDateWithinInterval example_env (JDate (Num 5000)) (startDate example_card)
      (endDate example_card)" by simp
  from W [of example_env "JDate (Num 6000)" "startDate example_card"
      "endDate example_card" 0 0 0] s e t6
  have 3: "\<not> isDateWithinInterval example_env (JDate (Num 6000)) (startDate example_card)
      (endDate example_card)" by simp
  from W [of example_env "JDate (Num 3000)" "JString ''tomorrow''"
      "endDate example_card" 0 0 0] bad
  have 4: "\<not> isDateWithinInterval example_env (JDate (Num 3000)) (JString ''tomorrow'')
      (endDate example_card)" by simp
  from 1 2 3 4 show ?thesis by simp
qed

text \<open>
  C5, as the code has it. At the current time 5999, which lies after the end 5000 of the
  interval, \<open>getEventBanner\<close> still returns the \<^verbatim>\<open>live\<close> entry of the banner map: the
  current \<^verbatim>\<open>Date\<close> goes through \<^verbatim>\<open>Date.parse\<close> and comes back as 5000.
\<close>

theorem getEventBanner_second_counterexample:
  "getCurrentDate (example_env\<lparr>servertime_param := Some ''5999''\<rparr>) = Num 5999
   \<and> Date_parse (example_env\<lparr>servertime_param := Some ''5999''\<rparr>) (startDate example_card)
       = Num 2000
   \<and> Date_parse (example_env\<lparr>servertime_param := Some ''5999''\<rparr>) (endDate example_card)
       = Num 5000
   \<and> getEventBanner (example_env\<lparr>servertime_param := Some ''5999''\<rparr>)
       (startDate example_card) (endDate example_card) example_banners = Some ''Live now''"
  by code_simp

text \<open>
  C5, amended. \<open>getEventBanner\<close> returns the \<^verbatim>\<open>live\<close> entry of the banner map when
  \<open>isDateWithinInterval\<close> holds of the current date, else the \<^verbatim>\<open>upcoming\<close> entry when
  \<open>isDateBeforeInterval\<close> holds of it, else the \<^verbatim>\<open>onDemand\<close> entry; within and before
  never hold together. Both tests read the current date through \<^verbatim>\<open>Date.parse\<close>, which
  for a current time from 1970 to the year 9998 is that time cut to the whole second.
  When this and the two dates parse, to \<open>t\<close>, \<open>a\<close> and \<open>b\<close> with \<open>a \<le> b\<close>, exactly one of
  \<open>a \<le> t \<le> b\<close>, \<open>t < a\<close> and \<open>b < t\<close> holds, and it selects the entry.
\<close>

theorem getEventBanner_cases:
  "getEventBanner e s en m =
     (if isDateWithinInterval e (JDate (getCurrentDate e)) s en then m ''live''
      else if isDateBeforeInterval e (JDate (getCurrentDate e)) s then m ''upcoming''
      else m ''onDemand'')
   \<and> \<not> (isDateWithinInterval e (JDate (getCurrentDate e)) s en \<and>
          isDateBeforeInterval e (JDate (getCurrentDate e)) s)
   \<and> (Date_parse e (JDate (getCurrentDate e)) = Num t \<and> Date_parse e s = Num a \<and>
       Date_parse e en = Num b \<and> a \<le> b \<longrightarrow>
        ((a \<le> t \<and> t \<le> b) \<and> \<not> t < a \<and> \<not> b < t \<and> getEventBanner e s en m = m ''live'')
        \<or> (\<not> (a \<le> t \<and> t \<le> b) \<and> t < a \<and> \<not> b < t \<and>
             getEventBanner e s en m = m ''upcoming'')
        \<or> (\<not> (a \<le> t \<and> t \<le> b) \<and> \<not> t < a \<and> b < t \<and>
             getEventBanner e s en m = m ''onDemand''))
   \<and> (getCurrentDate e = Num c \<and> 0 \<le> c \<and> c < TimeFromYear 9999 \<longrightarrow>
        Date_parse e (JDate (getCurrentDate e)) = Num (c div 1000 * 1000))"
  by (auto simp: getEventBanner_unfold isDateWithinInterval_Num isDateBeforeInterval_Num)

theorem getEventBanner_cases_witness:
  "getEventBanner example_env (startDate example_card) (endDate example_card) example_banners
     = Some ''Coming soon''
   \<and> getEventBanner (example_env\<lparr>differential := 2000\<rparr>) (startDate example_card)
       (endDate example_card) example_banners = Some ''Live now''
   \<and> getEventBanner (example_env\<lparr>differential := 7000\<rparr>) (startDate example_card)
       (endDate example_card) example_banners = Some ''On demand''
   \<and> Date_parse (example_env\<lparr>servertime_param := Some ''5999''\<rparr>)
       (JDate (getCurrentDate (example_env\<lparr>servertime_param := Some ''5999''\<rparr>))) = Num 5000"
proof -
  let ?s = "startDate example_card" and ?en = "endDate example_card"
  note B = getEventBanner_cases [THEN conjunct2, THEN conjunct2, THEN conjunct1]
  have now0: "Date_parse example_env (JDate (getCurrentDate example_env)) = Num 1000"
    by code_simp
  have s0: "Date_parse example_env ?s = Num 2000" by code_simp
  have e0: "Date_parse example_env ?en = Num 5000" by code_simp
  from B [of example_env 1000 ?s 2000 ?en 5000 example_banners] now0 s0 e0
  have "getEventBanner example_env ?s ?en example_banners = example_banners ''upcoming''"
    by simp
  then have 1: "getEventBanner example_env ?s ?en example_banners = Some ''Coming soon''"
    by (simp add: example_banners_def)
  let ?e2 = "example_env\<lparr>differential := 2000\<rparr>"
  have now2: "Date_parse ?e2 (JDate (getCurrentDate ?e2)) = Num 3000" by code_simp
  have s2: "Date_parse ?e2 ?s = Num 2000" by code_simp
  have e2: "Date_parse ?e2 ?en = Num 5000" by code_simp
  from B [of ?e2 3000 ?s 2000 ?en 5000 example_banners] now2 s2 e2
  have "getEventBanner ?e2 ?s ?en example_banners = example_banners ''live''"
    by simp
  then have 2: "getEventBanner ?e2 ?s ?en example_banners = Some ''Live now''"
    by (simp add: example_banners_def)
  let ?e7 = "example_env\<lparr>differential := 7000\<rparr>"
  have now7: "Date_parse ?e7 (JDate (getCurrentDate ?e7)) = Num 8000" by code_simp
  have s7: "Date_parse ?e7 ?s = Num 2000" by code_simp
  have e7: "Date_parse ?e7 ?en = Num 5000" by code_simp
  from B [of ?e7 8000 ?s 2000 ?en 5000 example_banners] now7 s7 e7
  have "getEventBanner ?e7 ?s ?en example_banners = example_banners ''onDemand''"
    by simp
  then have 3: "getEventBanner ?e7 ?s ?en example_banners = Some ''On demand''"
    by (simp add: example_banners_def)
  let ?e5 = "example_env\<lparr>servertime_param := Some ''5999''\<rparr>"
  have now5: "getCurrentDate ?e5 = Num 5999" by code_simp
  have range: "(0::int) \<le> 5999 \<and> 5999 < TimeFromYear 9999" by code_simp
  from getEventBanner_cases [of ?e5 _ _ _ _ _ _ 5999,
      THEN conjunct2, THEN conjunct2, THEN conjunct2] now5 range
  have 4: "Date_parse ?e5 (JDate (getCurrentDate ?e5)) = Num 5000" by simp
  from 1 2 3 4 show ?thesis by simp
qed

text \<open>
  C9. Whatever the current time, the end date and the banner map, \<open>getEventBanner\<close> with
  a start date that does not parse returns the \<^verbatim>\<open>onDemand\<close> entry of the banner map:
  the within test and the before test both compare with \<open>NaN\<close> and fail.
\<close>

theorem getEventBanner_malformed_start:
  "Date_parse e s = NaN \<Longrightarrow> getEventBanner e s en m = m ''onDemand''"
  by (simp add: getEventBanner_unfold isDateWithinInterval_Num isDateBeforeInterval_Num)

theorem getEventBanner_malformed_start_witness:
  "Date_parse example_env (JString ''next week'') = NaN
   \<and> getEventBanner example_env (JString ''next week'') (endDate example_card) example_banners
       = Some ''On demand''"
proof -
  have bad: "Date_parse example_env (JString ''next week'') = NaN" by code_simp
  from getEventBanner_malformed_start [OF bad, of "endDate example_card" example_banners] bad
  show ?thesis by (simp add: example_banners_def)
qed

section \<open>The clock\<close>

lemma parseInt_string_no_digit:
  assumes "\<forall>c \<in> set s. \<not> is_digit c"
  shows "parseInt_string s = DNaN"
proof -
  define s1 where "s1 = dropWhile is_space s"
  define s2 where
    "s2 = (case s1 of c # r \<Rightarrow> if c = CHR ''-'' \<or> c = CHR ''+'' then r else s1 | [] \<Rightarrow> s1)"
  have "set s1 \<subseteq> set s" unfolding s1_def by (auto dest: set_dropWhileD)
  moreover have "set s2 \<subseteq> set s1" unfolding s2_def by (cases s1) auto
  ultimately have "\<forall>c \<in> set s2. \<not> is_digit c" using assms by blast
  then have "takeWhile is_digit s2 = []" by (cases s2) auto
  then show ?thesis
    unfolding parseInt_string_def Let_def s2_def s1_def by simp
qed

text \<open>
  C6, as the code has it. With \<^verbatim>\<open>servertime=9000000000000000\<close> the parameter parses to
  a number other than zero, and \<open>getCurrentDate\<close> returns an invalid date, not the
  instant 9000000000000000.
\<close>

theorem getCurrentDate_range_counterexample:
  "parseInt (Some ''9000000000000000'') = DInt 9000000000000000
   \<and> getCurrentDate (example_env\<lparr>servertime_param := Some ''9000000000000000''\<rparr>) = NaN"
  by code_simp

text \<open>
  C6, amended. When \<^verbatim>\<open>parseInt\<close> reads a number other than zero from the
  \<^verbatim>\<open>servertime\<close> parameter, \<open>getCurrentDate\<close> returns the date made from that number
  plus the differential: the instant servertime + differential when it is at most
  \<open>8.64 * 10^15\<close> in magnitude, and the invalid date when it is beyond. In every other
  case (the parameter reads as \<open>NaN\<close> or as zero) it returns the wall clock; so it does
  when the parameter is missing and when it holds no digit. Every case returns a date.
\<close>

theorem getCurrentDate_cases:
  "(parseInt (servertime_param e) = v \<and> double_truthy v \<longrightarrow>
      getCurrentDate e = new_Date (double_add v (DInt (differential e))))
   \<and> (parseInt (servertime_param e) = DInt n \<and> n \<noteq> 0 \<and>
       \<bar>n + differential e\<bar> \<le> 8640000000000000 \<longrightarrow>
      getCurrentDate e = Num (n + differential e))
   \<and> (parseInt (servertime_param e) = DInt n \<and> n \<noteq> 0 \<and>
       8640000000000000 < \<bar>n + differential e\<bar> \<longrightarrow>
      getCurrentDate e = NaN)
   \<and> (parseInt (servertime_param e) = DNaN \<or> parseInt (servertime_param e) = DInt 0 \<longrightarrow>
      getCurrentDate e = Num (wall_clock e))
   \<and> (servertime_param e = None \<longrightarrow> getCurrentDate e = Num (wall_clock e))
   \<and> (servertime_param e = Some s \<and> (\<forall>c \<in> set s. \<not> is_digit c) \<longrightarrow>
      getCurrentDate e = Num (wall_clock e))"
proof -
  have 1: "parseInt (servertime_param e) = v \<and> double_truthy v \<longrightarrow>
      getCurrentDate e = new_Date (double_add v (DInt (differential e)))"
    by (simp add: getCurrentDate_def)
  have 2: "parseInt (servertime_param e) = DInt n \<and> n \<noteq> 0 \<and>
       \<bar>n + differential e\<bar> \<le> 8640000000000000 \<longrightarrow>
      getCurrentDate e = Num (n + differential e)"
  proof (intro impI, elim conjE)
    assume p: "parseInt (servertime_param e) = DInt n" and n: "n \<noteq> 0"
      and r: "\<bar>n + differential e\<bar> \<le> 8640000000000000"
    from r have "double_round (n + differential e) = DInt (n + differential e)"
      by (intro double_round_small) linarith
    with p n r show "getCurrentDate e = Num (n + differential e)"
      by (simp add: getCurrentDate_def new_Date_def TimeClip_def)
  qed
  have 3: "parseInt (servertime_param e) = DInt n \<and> n \<noteq> 0 \<and>
       8640000000000000 < \<bar>n + differential e\<bar> \<longrightarrow>
      getCurrentDate e = NaN"
    by (simp add: getCurrentDate_def new_Date_def TimeClip_double_round_large)
  have 4: "parseInt (servertime_param e) = DNaN \<or> parseInt (servertime_param e) = DInt 0 \<longrightarrow>
      getCurrentDate e = Num (wall_clock e)"
    by (auto simp: getCurrentDate_def)
  have none: "parseInt None = DNaN" by code_simp
  with 4 have 5: "servertime_param e = None \<longrightarrow> getCurrentDate e = Num (wall_clock e)"
    by simp
  have "servertime_param e = Some s \<Longrightarrow> \<forall>c \<in> set s. \<not> is_digit c \<Longrightarrow>
      parseInt (servertime_param e) = DNaN"
    by (simp add: parseInt_def parseInt_string_no_digit)
  with 4 have 6: "servertime_param e = Some s \<and> (\<forall>c \<in> set s. \<not> is_digit c) \<longrightarrow>
      getCurrentDate e = Num (wall_clock e)"
    by blast
  from 1 2 3 4 5 6 show ?thesis by (intro conjI)
qed

theorem getCurrentDate_cases_witness:
  "getCurrentDate (incrementDifferential (incrementDifferential example_env)) = Num 3000
   \<and> getCurrentDate (example_env\<lparr>servertime_param := Some ''9000000000000000''\<rparr>) = NaN
   \<and> getCurrentDate (example_env\<lparr>servertime_param := None\<rparr>) = Num 1700000000123
   \<and> getCurrentDate (example_env\<lparr>servertime_param := Some ''soon''\<rparr>) = Num 1700000000123
   \<and> getCurrentDate (example_env\<lparr>servertime_param := Some ''0''\<rparr>) = Num 1700000000123"
proof -
  note G = getCurrentDate_cases [THEN conjunct2]
  let ?e1 = "incrementDifferential (incrementDifferential example_env)"
  have p1: "parseInt (servertime_param ?e1) = DInt 1000" by code_simp
  have d1: "differential ?e1 = 2000" by code_simp
  from G [of ?e1 1000 "[]", THEN conjunct1] p1 d1
  have 1: "getCurrentDate ?e1 = Num 3000" by simp
  let ?e5 = "example_env\<lparr>servertime_param := Some ''9000000000000000''\<rparr>"
  have p5: "parseInt (servertime_param ?e5) = DInt 9000000000000000" by code_simp
  have d5: "differential ?e5 = 0" by code_simp
  from G [of ?e5 9000000000000000 "[]", THEN conjunct2, THEN conjunct1] p5 d5
  have 5: "getCurrentDate ?e5 = NaN" by simp
  let ?e2 = "example_env\<lparr>servertime_param := None\<rparr>"
  have w2: "wall_clock ?e2 = 1700000000123" by code_simp
  from G [of ?e2 0 "[]", THEN conjunct2, THEN conjunct2, THEN conjunct2, THEN conjunct1] w2
  have 2: "getCurrentDate ?e2 = Num 1700000000123" by simp
  let ?e3 = "example_env\<lparr>servertime_param := Some ''soon''\<rparr>"
  have w3: "wall_clock ?e3 = 1700000000123" by code_simp
  have nd: "\<forall>c \<in> set ''soon''. \<not> is_digit c" by code_simp
  from G [of ?e3 0 "''soon''", THEN conjunct2, THEN conjunct2, THEN conjunct2, THEN conjunct2]
    w3 nd
  have 3: "getCurrentDate ?e3 = Num 1700000000123" by simp
  let ?e4 = "example_env\<lparr>servertime_param := Some ''0''\<rparr>"
  have w4: "wall_clock ?e4 = 1700000000123" by code_simp
  have p4: "parseInt (servertime_param ?e4) = DInt 0" by code_simp
  from G [of ?e4 0 "[]", THEN conjunct2, THEN conjunct2, THEN conjunct1] w4 p4
  have 4: "getCurrentDate ?e4 = Num 1700000000123" by simp
  from 1 5 2 3 4 show ?thesis by simp
qed

section \<open>The first item number of a page\<close>

lemma double_strict_eq_one: "double_strict_eq c (DInt 1) \<longleftrightarrow> c = DInt 1"
  by (cases c) simp_all

lemma startNumber_formula_one:
  assumes "\<bar>n\<bar> < 9007199254740992"
  shows "startNumber_formula (DInt 1) (DInt n) = DInt 1"
proof -
  from assms have "double_round n = DInt n" by (intro double_round_small) simp
  then have mul: "double_mul (DInt 1) (DInt n) = DInt n" by simp
  from assms have "double_round (n + - 1) = DInt (n + - 1)"
    by (intro double_round_small) linarith
  then have sub: "double_sub (DInt n) (DInt 1) = DInt (n + - 1)"
    by (simp add: double_sub_def)
  have "double_round (n + - (n + - 1)) = DInt 1"
    by (simp add: double_round_small)
  then have "double_sub (DInt n) (DInt (n + - 1)) = DInt 1"
    by (simp only: double_sub_def double_negate.simps double_add.simps)
  with mul sub show ?thesis by (simp only: startNumber_formula_def)
qed

text \<open>
  C10, as the code has it. On the first page with a number of items per page that is
  \<open>NaN\<close>, \<open>getStartNumber\<close> returns 1 and the formula gives \<open>NaN\<close>; with
  9007199254740994 items per page the formula gives 2, because
  \<open>9007199254740994 - 1\<close> is rounded to \<open>2^53\<close>.
\<close>

theorem getStartNumber_counterexample:
  "getStartNumber (DInt 1) DNaN = DInt 1 \<and> startNumber_formula (DInt 1) DNaN = DNaN
   \<and> getStartNumber (DInt 1) (DInt 9007199254740994) = DInt 1
   \<and> startNumber_formula (DInt 1) (DInt 9007199254740994) = DInt 2"
  by code_simp

text \<open>
  C10, amended. For every page number other than 1, \<open>getStartNumber\<close> is the branch-free
  formula. On page 1 the special case returns 1, and the formula gives 1 as well whenever
  the number of items per page is an integer below \<open>2^53\<close> in magnitude; it does not for
  \<open>NaN\<close>, for an infinity and for some larger integers.
\<close>

theorem getStartNumber_formula:
  "(c \<noteq> DInt 1 \<or> (\<exists>n. s = DInt n \<and> \<bar>n\<bar> < 9007199254740992) \<longrightarrow>
      getStartNumber c s = startNumber_formula c s)
   \<and> (\<bar>n\<bar> < 9007199254740992 \<longrightarrow>
      getStartNumber (DInt 1) (DInt n) = DInt 1 \<and> startNumber_formula (DInt 1) (DInt n) = DInt 1)"
proof -
  have "getStartNumber c s = startNumber_formula c s" if "c \<noteq> DInt 1"
    using that by (simp add: getStartNumber_def startNumber_formula_def double_strict_eq_one)
  moreover have "getStartNumber (DInt 1) (DInt k) = DInt 1" for k
    by (simp add: getStartNumber_def)
  ultimately show ?thesis
    by (cases "c = DInt 1") (auto simp: startNumber_formula_one)
qed

theorem getStartNumber_formula_witness:
  "getStartNumber (DInt 1) (DInt 10) = startNumber_formula (DInt 1) (DInt 10)
   \<and> getStartNumber (DInt 3) (DInt 10) = DInt 21
   \<and> getStartNumber (DInt 3) DNaN = startNumber_formula (DInt 3) DNaN
   \<and> getStartNumber (DInt 3002399751580331) (DInt 3) = DInt 9007199254740990"
proof -
  note S = getStartNumber_formula [THEN conjunct1]
  from S [of "DInt 1" "DInt 10"]
  have 1: "getStartNumber (DInt 1) (DInt 10) = startNumber_formula (DInt 1) (DInt 10)"
    by simp
  have f2: "startNumber_formula (DInt 3) (DInt 10) = DInt 21" by code_simp
  from S [of "DInt 3" "DInt 10"] f2 have 2: "getStartNumber (DInt 3) (DInt 10) = DInt 21"
    by simp
  from S [of "DInt 3" DNaN]
  have 3: "getStartNumber (DInt 3) DNaN = startNumber_formula (DInt 3) DNaN"
    by simp
  have f4: "startNumber_formula (DInt 3002399751580331) (DInt 3) = DInt 9007199254740990"
    by code_simp
  from S [of "DInt 3002399751580331" "DInt 3"] f4
  have 4: "getStartNumber (DInt 3002399751580331) (DInt 3) = DInt 9007199254740990"
    by simp
  from 1 2 3 4 show ?thesis by simp
qed

end
